theory Spec2Isabelle
  imports Complex_Main "HOL-Library.Log_Nat" "HOL-Library.Multiset" "HOL-Library.Char_ord"
begin

section \<open>Data model of \<^verbatim>\<open>src/app.js\<close>\<close>

text \<open>
  The dashboard script receives a JSON batch, renders a summary, source-health pills and
  result cards, and drives the refresh requests. Strings are byte lists (UTF-8), numbers
  are IEEE-754 binary64 values, and every \<^verbatim>\<open>throw\<close> of the script is a value of
  \<open>js_error\<close>.
\<close>

subsection \<open>Numbers\<close>

text \<open>
  A JavaScript number: a finite binary64 value (held as the rational it denotes), the two
  infinities, or NaN. The sign of zero is not tracked.
\<close>

datatype jsnum = Num rat | PosInf | NegInf | NaN

definition pow2 :: "int \<Rightarrow> rat" where
  "pow2 e = (if 0 \<le> e then 2 ^ nat e else 1 / 2 ^ nat (- e))"

text \<open>The binary exponent of a positive rational: \<open>2^e \<le> q < 2^(e+1)\<close>.\<close>

definition floor_log2 :: "rat \<Rightarrow> int" where
  "floor_log2 q =
     (let (a, b) = quotient_of q; e0 = bitlen a - bitlen b
      in if q < pow2 e0 then e0 - 1 else e0)"

definition round_half_even :: "rat \<Rightarrow> int" where
  "round_half_even x =
     (let f = \<lfloor>x\<rfloor>; d = x - of_int f
      in if d < 1 / 2 then f else if 1 / 2 < d then f + 1 else if even f then f else f + 1)"

text \<open>
  Rounding of an exact value to binary64, round-to-nearest, ties-to-even: 53 significant
  bits, the quantum never below \<open>2^-1074\<close> (subnormals), and an infinity once the rounded
  magnitude reaches \<open>2^1024\<close>, that is, once its binary exponent reaches 1024.
\<close>

definition round_double :: "rat \<Rightarrow> jsnum" where
  "round_double q =
     (if q = 0 then Num 0
      else let e = max (floor_log2 \<bar>q\<bar>) (- 1022);
               u = pow2 (e - 52);
               r = of_int (round_half_even (q / u)) * u
           in if r \<noteq> 0 \<and> 1024 \<le> floor_log2 \<bar>r\<bar>
              then (if 0 < q then PosInf else NegInf) else Num r)"

text \<open>The operator \<^verbatim>\<open>+\<close> on two numbers.\<close>

fun js_add :: "jsnum \<Rightarrow> jsnum \<Rightarrow> jsnum" where
  "js_add NaN _ = NaN"
| "js_add _ NaN = NaN"
| "js_add PosInf NegInf = NaN"
| "js_add NegInf PosInf = NaN"
| "js_add PosInf _ = PosInf"
| "js_add _ PosInf = PosInf"
| "js_add NegInf _ = NegInf"
| "js_add _ NegInf = NegInf"
| "js_add (Num a) (Num b) = round_double (a + b)"

text \<open>The operator \<^verbatim>\<open>/\<close> on two numbers (a zero divisor counts as \<open>+0\<close>).\<close>

fun js_div :: "jsnum \<Rightarrow> jsnum \<Rightarrow> jsnum" where
  "js_div NaN _ = NaN"
| "js_div _ NaN = NaN"
| "js_div (Num a) (Num b) =
     (if b = 0 then (if a = 0 then NaN else if 0 < a then PosInf else NegInf)
      else round_double (a / b))"
| "js_div (Num a) _ = Num 0"
| "js_div PosInf (Num b) = (if 0 \<le> b then PosInf else NegInf)"
| "js_div NegInf (Num b) = (if 0 \<le> b then NegInf else PosInf)"
| "js_div _ _ = NaN"

subsection \<open>Analysis results\<close>

text \<open>
  Of an analysis result the script reads \<^verbatim>\<open>trend\<close>, \<^verbatim>\<open>verdict\<close> and
  \<^verbatim>\<open>fake_probability\<close> in the functions modelled here. \<^verbatim>\<open>trend.category\<close> may be
  absent (\<open>None\<close>); an item of a malformed payload may lack \<^verbatim>\<open>trend\<close> altogether.
\<close>

record trend =
  platform :: string
  title :: string
  url :: string
  category :: "string option"

record result =
  trend :: "trend option"
  verdict :: string
  fake_probability :: jsnum

datatype js_error = TypeError string | SyntaxError string | Error string

fun message :: "js_error \<Rightarrow> string" where
  "message (TypeError m) = m"
| "message (SyntaxError m) = m"
| "message (Error m) = m"

text \<open>
  Reading property \<open>p\<close> of \<^verbatim>\<open>undefined\<close> or of \<^verbatim>\<open>null\<close> (the messages are the
  ones V8 gives).
\<close>

definition reading_undefined :: "string \<Rightarrow> js_error" where
  "reading_undefined p =
     TypeError (''Cannot read properties of undefined (reading '' @ [CHR 0x27] @ p @ [CHR 0x27] @ '')'')"

definition reading_null :: "string \<Rightarrow> js_error" where
  "reading_null p =
     TypeError (''Cannot read properties of null (reading '' @ [CHR 0x27] @ p @ [CHR 0x27] @ '')'')"

subsection \<open>Categories\<close>

type_synonym category_def = "string \<times> string"

abbreviation cat_id :: "category_def \<Rightarrow> string" where "cat_id \<equiv> fst"
abbreviation cat_label :: "category_def \<Rightarrow> string" where "cat_label \<equiv> snd"

definition CATEGORIES :: "category_def list" where
  "CATEGORIES =
     [(''all'', ''All''),
      (''local'', ''Local''),
      (''india'', ''India''),
      (''world'', ''World''),
      (''entertainment'', ''Entertainment''),
      (''health'', ''Health''),
      (''trending'', ''Trending''),
      (''sports'', ''Sports''),
      (''esports'', ''Esports''),
      (''food'', ''Food''),
      (''events'', ''Events'')]"

text \<open>\<^verbatim>\<open>CATEGORY_LABELS[c] || c\<close>: no label is the empty string.\<close>

definition category_label :: "string \<Rightarrow> string" where
  "category_label c = (case map_of CATEGORIES c of Some l \<Rightarrow> l | None \<Rightarrow> c)"

section \<open>\<^verbatim>\<open>renderCards\<close>\<close>

text \<open>
  The children of the results element. \<open>Card r\<close> is the node \<^verbatim>\<open>buildCard(r)\<close> returns; a
  section carries its heading text and its cards.
\<close>

datatype node = Section string "node list" | Card result

text \<open>\<^verbatim>\<open>buildCard\<close> reads \<^verbatim>\<open>item.trend.platform\<close> first, which throws without a trend.\<close>

definition buildCard :: "result \<Rightarrow> js_error + node" where
  "buildCard item =
     (case trend item of None \<Rightarrow> Inl (reading_undefined ''platform'') | Some _ \<Rightarrow> Inr (Card item))"

text \<open>
  \<^verbatim>\<open>items.forEach((item) => parent.appendChild(buildCard(item)))\<close>: the cards appended
  before a throw stay appended.
\<close>

fun append_cards :: "result list \<Rightarrow> node list \<times> js_error option" where
  "append_cards [] = ([], None)"
| "append_cards (item # items) =
     (case buildCard item of
        Inl e \<Rightarrow> ([], Some e)
      | Inr n \<Rightarrow> (case append_cards items of (ns, e) \<Rightarrow> (n # ns, e)))"

text \<open>\<^verbatim>\<open>item.trend.category || "trending"\<close>: absent and empty are both falsy.\<close>

definition category_or_trending :: "trend \<Rightarrow> string" where
  "category_or_trending t =
     (case category t of None \<Rightarrow> ''trending'' | Some c \<Rightarrow> if c = [] then ''trending'' else c)"

text \<open>The \<^verbatim>\<open>Map\<close> of groups, in insertion order.\<close>

type_synonym groups = "(string \<times> result list) list"

text \<open>\<^verbatim>\<open>if (!groups.has(c)) groups.set(c, []); groups.get(c).push(item)\<close>\<close>

fun push_group :: "string \<Rightarrow> result \<Rightarrow> groups \<Rightarrow> groups" where
  "push_group c item [] = [(c, [item])]"
| "push_group c item ((k, v) # g) =
     (if k = c then (k, v @ [item]) # g else (k, v) # push_group c item g)"

fun group_results :: "result list \<Rightarrow> groups \<Rightarrow> js_error + groups" where
  "group_results [] g = Inr g"
| "group_results (item # items) g =
     (case trend item of
        None \<Rightarrow> Inl (reading_undefined ''category'')
      | Some t \<Rightarrow> group_results items (push_group (category_or_trending t) item g))"

text \<open>\<^verbatim>\<open>groups.get(id) || []\<close>\<close>

definition group_items :: "groups \<Rightarrow> string \<Rightarrow> result list" where
  "group_items g c = (case map_of g c of None \<Rightarrow> [] | Some items \<Rightarrow> items)"

text \<open>
  The loop over the categories: an empty group is skipped; a section is appended to the
  results element only after all its cards were built.
\<close>

fun render_sections :: "category_def list \<Rightarrow> groups \<Rightarrow> node list \<times> js_error option" where
  "render_sections [] g = ([], None)"
| "render_sections (c # cs) g =
     (let items = group_items g (cat_id c)
      in if items = [] then render_sections cs g
         else (case append_cards items of
                 (cards, Some e) \<Rightarrow> ([], Some e)
               | (cards, None) \<Rightarrow>
                   (case render_sections cs g of
                      (ns, e) \<Rightarrow> (Section (cat_label c @ '' News'') cards # ns, e))))"

text \<open>
  \<^verbatim>\<open>renderCards(results)\<close> with the current \<^verbatim>\<open>selectedCategory\<close>: the children of the
  results element afterwards (it is cleared first), and the error thrown, if any.
\<close>

definition renderCards :: "string \<Rightarrow> result list \<Rightarrow> node list \<times> js_error option" where
  "renderCards selectedCategory results =
     (if selectedCategory = ''all'' then
        (case group_results results [] of
           Inl e \<Rightarrow> ([], Some e)
         | Inr g \<Rightarrow> render_sections (filter (\<lambda>c. cat_id c \<noteq> ''all'') CATEGORIES) g)
      else append_cards results)"

section \<open>\<^verbatim>\<open>renderSummary\<close>\<close>

text \<open>
  The four constants \<^verbatim>\<open>total\<close>, \<^verbatim>\<open>misleading\<close>, \<^verbatim>\<open>real\<close> (here \<open>real_count\<close>) and
  \<^verbatim>\<open>avgFake\<close> that \<^verbatim>\<open>renderSummary\<close> computes before it writes them to the page.
\<close>

record summary =
  total :: nat
  misleading :: nat
  real_count :: nat
  avgFake :: jsnum

text \<open>\<^verbatim>\<open>results.reduce((sum, r) => sum + r.fake_probability, 0)\<close>\<close>

definition sum_fake :: "result list \<Rightarrow> jsnum" where
  "sum_fake results = foldl (\<lambda>sum r. js_add sum (fake_probability r)) (Num 0) results"

definition summarize :: "result list \<Rightarrow> summary" where
  "summarize results =
     (let total = length results
      in \<lparr>total = total,
          misleading = length (filter (\<lambda>r. verdict r = ''Likely Misleading'') results),
          real_count = length (filter (\<lambda>r. verdict r = ''Likely Real'') results),
          avgFake = (if total = 0 then Num 0
                     else js_div (sum_fake results) (Num (of_nat total)))\<rparr>)"

text \<open>\<^verbatim>\<open>String(n)\<close> for a non-negative integer: its decimal digits.\<close>

definition digit_char :: "nat \<Rightarrow> char" where
  "digit_char d = char_of (48 + d)"

function decimal :: "nat \<Rightarrow> string" where
  "decimal n = (if n < 10 then [digit_char n] else decimal (n div 10) @ [digit_char (n mod 10)])"
  by pat_completeness auto
termination
  by (relation "measure id") auto

declare decimal.simps [simp del]

text \<open>
  A number as text: either the characters themselves, or \<open>NumberToString x\<close>, which stands
  for the characters \<^verbatim>\<open>String(x)\<close> produces.
\<close>

datatype number_text = Chars string | NumberToString jsnum

text \<open>
  \<^verbatim>\<open>x.toFixed(1)\<close>: a non-finite number and a magnitude of \<open>10^21\<close> or more are
  printed as \<^verbatim>\<open>String(x)\<close>; otherwise \<open>n\<close> is the integer nearest to ten times the
  magnitude, the larger one of two, and the digits of \<open>n\<close> are printed with a point before
  the last one, after a minus sign when \<open>x\<close> is negative.
\<close>

definition toFixed1 :: "jsnum \<Rightarrow> number_text" where
  "toFixed1 x =
     (case x of
        Num q \<Rightarrow>
          if 10 ^ 21 \<le> \<bar>q\<bar> then NumberToString x
          else let n = nat \<lfloor>\<bar>q\<bar> * 10 + 1 / 2\<rfloor>;
                   m = (if n < 10 then ''0'' @ decimal n else decimal n)
               in Chars ((if q < 0 then ''-'' else []) @ butlast m @ ''.'' @ [last m])
      | _ \<Rightarrow> NumberToString x)"

text \<open>
  The text of the four summary elements; \<open>avgFakeEl\<close> shows the \<open>number_text\<close> followed by
  a percent sign.
\<close>

record summary_text =
  totalTrendsEl :: string
  misleadingCountEl :: string
  realCountEl :: string
  avgFakeEl :: number_text

definition renderSummary :: "result list \<Rightarrow> summary_text" where
  "renderSummary results =
     (let s = summarize results
      in \<lparr>totalTrendsEl = decimal (total s),
          misleadingCountEl = decimal (misleading s),
          realCountEl = decimal (real_count s),
          avgFakeEl = toFixed1 (avgFake s)\<rparr>)"

section \<open>\<^verbatim>\<open>renderSourceHealth\<close>\<close>

text \<open>\<^verbatim>\<open>source.replace("_", " ")\<close>: a string pattern replaces its first occurrence only.\<close>

fun replace_underscore :: "string \<Rightarrow> string" where
  "replace_underscore [] = []"
| "replace_underscore (c # cs) = (if c = CHR ''_'' then CHR '' '' # cs else c # replace_underscore cs)"

text \<open>\<^verbatim>\<open>s.startsWith(p)\<close> and \<^verbatim>\<open>s.includes(p)\<close>\<close>

definition startsWith :: "string \<Rightarrow> string \<Rightarrow> bool" where
  "startsWith s p = (take (length p) s = p)"

fun includes_str :: "string \<Rightarrow> string \<Rightarrow> bool" where
  "includes_str [] p = (p = [])"
| "includes_str (c # s) p = (startsWith (c # s) p \<or> includes_str s p)"

text \<open>An element that the script creates: its class and its text.\<close>

record element =
  className :: string
  textContent :: string

text \<open>
  The entries of \<^verbatim>\<open>Object.entries(sourceHealth || {})\<close> in their order, each status
  already a string.
\<close>

definition status_ok :: "string \<Rightarrow> bool" where
  "status_ok status = (startsWith status ''ok'' \<or> includes_str status ''fallback'')"

definition renderSourceHealth :: "(string \<times> string) list \<Rightarrow> element list" where
  "renderSourceHealth sourceHealth =
     map (\<lambda>(source, status).
            \<lparr>className = ''source-pill '' @ (if status_ok status then ''ok'' else ''warn''),
             textContent = replace_underscore source @ '': '' @ status\<rparr>)
         sourceHealth"

section \<open>\<^verbatim>\<open>Number(string)\<close> and \<^verbatim>\<open>encodeURIComponent\<close>\<close>

text \<open>
  The white space and line terminators that \<^verbatim>\<open>Number\<close> strips from both ends of a
  string, as UTF-8: the ASCII ones, and U+00A0, U+1680, U+2000 to U+200A, U+2028, U+2029,
  U+202F, U+205F, U+3000 and U+FEFF.
\<close>

definition white_space_length :: "string \<Rightarrow> nat" where
  "white_space_length s =
     (if s = [] then 0
      else if hd s \<in> set [CHR 0x09, CHR 0x0A, CHR 0x0B, CHR 0x0C, CHR 0x0D, CHR 0x20] then 1
      else if take 2 s = [CHR 0xC2, CHR 0xA0] then 2
      else if take 3 s \<in> set
               ([[CHR 0xE1, CHR 0x9A, CHR 0x80], [CHR 0xE2, CHR 0x80, CHR 0xA8],
                 [CHR 0xE2, CHR 0x80, CHR 0xA9], [CHR 0xE2, CHR 0x80, CHR 0xAF],
                 [CHR 0xE2, CHR 0x81, CHR 0x9F], [CHR 0xE3, CHR 0x80, CHR 0x80],
                 [CHR 0xEF, CHR 0xBB, CHR 0xBF]]
                @ map (\<lambda>b. [CHR 0xE2, CHR 0x80, char_of b]) [0x80 ..< 0x8B :: nat])
           then 3
      else 0)"

function trim_start :: "string \<Rightarrow> string" where
  "trim_start s =
     (if white_space_length s = 0 then s else trim_start (drop (white_space_length s) s))"
  by pat_completeness auto
termination
  by (relation "measure length") (auto simp: white_space_length_def split: if_splits)

declare trim_start.simps [simp del]

fun trim_end :: "string \<Rightarrow> string" where
  "trim_end [] = []"
| "trim_end (c # cs) = (if trim_start (c # cs) = [] then [] else c # trim_end cs)"

definition is_digit :: "char \<Rightarrow> bool" where
  "is_digit c = (CHR ''0'' \<le> c \<and> c \<le> CHR ''9'')"

text \<open>The value of a digit in a base up to 16, if it is one.\<close>

definition digit_value :: "nat \<Rightarrow> char \<Rightarrow> nat option" where
  "digit_value base c =
     (let v = (if CHR ''0'' \<le> c \<and> c \<le> CHR ''9'' then of_char c - 48
               else if CHR ''a'' \<le> c \<and> c \<le> CHR ''f'' then of_char c - 87
               else if CHR ''A'' \<le> c \<and> c \<le> CHR ''F'' then of_char c - 55
               else 16)
      in if v < base then Some v else None)"

fun digits_value :: "nat \<Rightarrow> string \<Rightarrow> nat \<Rightarrow> nat option" where
  "digits_value base [] acc = Some acc"
| "digits_value base (c # cs) acc =
     (case digit_value base c of None \<Rightarrow> None | Some v \<Rightarrow> digits_value base cs (base * acc + v))"

definition pow10 :: "int \<Rightarrow> rat" where
  "pow10 e = (if 0 \<le> e then 10 ^ nat e else 1 / 10 ^ nat (- e))"

text \<open>
  An optional sign and digits after \<^verbatim>\<open>e\<close> or \<^verbatim>\<open>E\<close>; no exponent part at all counts
  as exponent 0.
\<close>

definition exponent_part :: "string \<Rightarrow> int option" where
  "exponent_part s =
     (if s = [] then Some 0
      else if hd s \<noteq> CHR ''e'' \<and> hd s \<noteq> CHR ''E'' then None
      else let t = tl s;
               negative = (t \<noteq> [] \<and> hd t = CHR ''-'');
               ds = (if t \<noteq> [] \<and> (hd t = CHR ''-'' \<or> hd t = CHR ''+'') then tl t else t)
           in if ds = [] then None
              else (case digits_value 10 ds 0 of
                      None \<Rightarrow> None
                    | Some n \<Rightarrow> Some (if negative then - int n else int n)))"

text \<open>
  An unsigned decimal literal: digits, an optional point with optional digits, an optional
  exponent; or a point with digits and an optional exponent. The result is its exact value.
\<close>

definition unsigned_decimal :: "string \<Rightarrow> rat option" where
  "unsigned_decimal s =
     (let ip = takeWhile is_digit s;
          r1 = dropWhile is_digit s;
          point = (r1 \<noteq> [] \<and> hd r1 = CHR ''.'');
          fp = (if point then takeWhile is_digit (tl r1) else []);
          r2 = (if point then dropWhile is_digit (tl r1) else r1)
      in if ip = [] \<and> fp = [] then None
         else (case (digits_value 10 (ip @ fp) 0, exponent_part r2) of
                 (Some n, Some e) \<Rightarrow> Some (of_nat n * pow10 (e - int (length fp)))
               | _ \<Rightarrow> None))"

definition radix_literal :: "nat \<Rightarrow> string \<Rightarrow> jsnum" where
  "radix_literal base ds =
     (if ds = [] then NaN
      else (case digits_value base ds 0 of None \<Rightarrow> NaN | Some n \<Rightarrow> round_double (of_nat n)))"

text \<open>
  \<^verbatim>\<open>Number(s)\<close> for a string: the trimmed string is empty (0), a hexadecimal, octal or
  binary integer literal, or an optionally signed \<^verbatim>\<open>Infinity\<close> or decimal literal;
  anything else is NaN. The value of a literal is rounded to the nearest double.
\<close>

definition StringToNumber :: "string \<Rightarrow> jsnum" where
  "StringToNumber str =
     (let s = trim_end (trim_start str)
      in if s = [] then Num 0
         else if take 2 s = ''0x'' \<or> take 2 s = ''0X'' then radix_literal 16 (drop 2 s)
         else if take 2 s = ''0o'' \<or> take 2 s = ''0O'' then radix_literal 8 (drop 2 s)
         else if take 2 s = ''0b'' \<or> take 2 s = ''0B'' then radix_literal 2 (drop 2 s)
         else let negative = (hd s = CHR ''-'');
                  u = (if hd s = CHR ''-'' \<or> hd s = CHR ''+'' then tl s else s)
              in if u = ''Infinity'' then (if negative then NegInf else PosInf)
                 else (case unsigned_decimal u of
                         None \<Rightarrow> NaN
                       | Some q \<Rightarrow> round_double (if negative then - q else q)))"

text \<open>
  \<^verbatim>\<open>encodeURIComponent\<close> on UTF-8 bytes: letters, digits and \<^verbatim>\<open>-_.!~*'()\<close> stay,
  every other byte becomes a percent sign and two upper-case hexadecimal digits.
\<close>

definition unreserved :: "char \<Rightarrow> bool" where
  "unreserved c =
     ((CHR ''a'' \<le> c \<and> c \<le> CHR ''z'') \<or> (CHR ''A'' \<le> c \<and> c \<le> CHR ''Z'') \<or>
      (CHR ''0'' \<le> c \<and> c \<le> CHR ''9'') \<or>
      c \<in> set [CHR ''-'', CHR ''_'', CHR ''.'', CHR ''!'', CHR ''~'', CHR ''*'', CHR 0x27,
                 CHR ''('', CHR '')''])"

definition hex_digit :: "nat \<Rightarrow> char" where
  "hex_digit d = (if d < 10 then char_of (48 + d) else char_of (55 + d))"

definition encodeURIComponent :: "string \<Rightarrow> string" where
  "encodeURIComponent s =
     concat (map (\<lambda>c. if unreserved c then [c]
                       else [CHR ''%'', hex_digit (of_char c div 16), hex_digit (of_char c mod 16)]) s)"

section \<open>The page and \<^verbatim>\<open>runAnalysis\<close>\<close>

text \<open>
  A request to \<^verbatim>\<open>/api/analyze\<close>: the three interpolated parts of the URL
  \<^verbatim>\<open>/api/analyze?limit=${limit}&category=${encodeURIComponent(selectedCategory)}${refreshParam}\<close>.
\<close>

record request =
  limit :: jsnum
  category_param :: string
  refreshParam :: string

text \<open>
  The state of the page: what the elements show, the script's variable
  \<^verbatim>\<open>selectedCategory\<close>, the requests whose fetch has not settled yet (oldest first) and
  all requests sent so far.
\<close>

record page =
  statusText :: string
  statusColor :: string
  refreshDisabled :: bool
  limitValue :: string
  categoryTabs :: "element list"
  summaryEls :: summary_text
  sourceHealthEl :: "element list"
  resultsEl :: "node list"
  selectedCategory :: string
  pending :: "request list"
  sent :: "request list"

definition setStatus :: "string \<Rightarrow> bool \<Rightarrow> page \<Rightarrow> page" where
  "setStatus text isError p =
     p\<lparr>statusText := text, statusColor := (if isError then ''#8d2519'' else ''#5d6b72'')\<rparr>"

text \<open>One button per category; a click on it is the event \<open>ClickTab\<close> below.\<close>

definition renderCategoryTabs :: "page \<Rightarrow> page" where
  "renderCategoryTabs p =
     p\<lparr>categoryTabs :=
          map (\<lambda>c. \<lparr>className = ''tab-btn '' @ (if selectedCategory p = cat_id c then ''active'' else []),
                     textContent = cat_label c\<rparr>)
              CATEGORIES\<rparr>"

text \<open>\<^verbatim>\<open>Number(limitEl.value || 20)\<close>: only the empty string is falsy.\<close>

definition limit_of :: "string \<Rightarrow> jsnum" where
  "limit_of v = (if v = [] then Num 20 else StringToNumber v)"






text \<open>\<^verbatim>\<open>runAnalysis(forceRefresh)\<close> up to the call of \<^verbatim>\<open>fetch\<close>.\<close>

definition runAnalysis_start :: "bool \<Rightarrow> page \<Rightarrow> page" where
  "runAnalysis_start forceRefresh p =
     (let r = \<lparr>limit = limit_of (limitValue p),
                category_param = encodeURIComponent (selectedCategory p),
                refreshParam = (if forceRefresh then ''&refresh=true'' else [])\<rparr>;
          p1 = setStatus (''Analyzing '' @ category_label (selectedCategory p) @ '' trends...'') False p
      in p1\<lparr>refreshDisabled := True, pending := pending p1 @ [r], sent := sent p1 @ [r]\<rparr>)"

text \<open>
  The parsed response body, an object. \<open>results\<close> is \<open>None\<close> when \<^verbatim>\<open>data.results\<close> is
  absent or another falsy value, so that \<^verbatim>\<open>data.results || []\<close> is the empty array, and
  likewise \<open>source_health\<close>. \<open>generated\<close> is the text that
  \<^verbatim>\<open>new Date(data.generated_at).toLocaleString()\<close> yields in the browser's locale.
\<close>

record payload =
  results :: "result list option"
  source_health :: "(string \<times> string) list option"
  generated :: string

text \<open>
  How a fetch settles: it rejects with a message, or it resolves with a status code and a
  body that \<^verbatim>\<open>response.json()\<close> either rejects with a message or parses: to
  \<^verbatim>\<open>null\<close>, to an object whose \<^verbatim>\<open>results\<close> is a truthy value other than an array, or to
  an object as above.
\<close>

datatype body = NotJson string | JsonNull | JsonResultsNotArray | Json payload

datatype outcome = Rejected string | Response nat body

text \<open>\<^verbatim>\<open>response.ok\<close>\<close>

definition ok :: "nat \<Rightarrow> bool" where
  "ok status = (200 \<le> status \<and> status \<le> 299)"

text \<open>
  The statements of the \<^verbatim>\<open>try\<close> block after the body was parsed. \<^verbatim>\<open>renderSummary\<close>
  comes first: on a value that is not an array it throws at \<^verbatim>\<open>results.filter\<close>, before it
  writes anything (that case is in \<open>try_block\<close> below).
\<close>

definition render_data :: "payload \<Rightarrow> page \<Rightarrow> page \<times> js_error option" where
  "render_data data p =
     (let rs = (case results data of None \<Rightarrow> [] | Some xs \<Rightarrow> xs);
          p1 = p\<lparr>summaryEls := renderSummary rs\<rparr>;
          p2 = p1\<lparr>sourceHealthEl :=
                   renderSourceHealth (case source_health data of None \<Rightarrow> [] | Some h \<Rightarrow> h)\<rparr>
      in (case renderCards (selectedCategory p2) rs of
            (nodes, Some e) \<Rightarrow> (p2\<lparr>resultsEl := nodes\<rparr>, Some e)
          | (nodes, None) \<Rightarrow>
              (setStatus (''Updated at '' @ generated data @ ''.'') False (p2\<lparr>resultsEl := nodes\<rparr>),
               None)))"

definition try_block :: "outcome \<Rightarrow> page \<Rightarrow> page \<times> js_error option" where
  "try_block out p =
     (case out of
        Rejected m \<Rightarrow> (p, Some (TypeError m))
      | Response status b \<Rightarrow>
          if \<not> ok status then (p, Some (Error (''HTTP '' @ decimal status)))
          else (case b of
                  NotJson m \<Rightarrow> (p, Some (SyntaxError m))
                | JsonNull \<Rightarrow> (p, Some (reading_null ''results''))
                | JsonResultsNotArray \<Rightarrow> (p, Some (TypeError ''results.filter is not a function''))
                | Json data \<Rightarrow> render_data data p))"

text \<open>\<^verbatim>\<open>runAnalysis\<close> from the moment its fetch settles: \<^verbatim>\<open>try\<close>, \<^verbatim>\<open>catch\<close>, \<^verbatim>\<open>finally\<close>.\<close>

definition runAnalysis_settle :: "outcome \<Rightarrow> page \<Rightarrow> page" where
  "runAnalysis_settle out p =
     (let p1 = (case try_block out p of
                  (p', Some e) \<Rightarrow> setStatus (''Failed to load analysis: '' @ message e) True p'
                | (p', None) \<Rightarrow> p')
      in p1\<lparr>refreshDisabled := False\<rparr>)"

text \<open>
  What can happen on the page: a click on the refresh button (a disabled button gets no
  click), a click on the tab of a category, an edit of the limit control, and the settling
  of the \<open>i\<close>-th pending fetch.
\<close>

datatype event = ClickRefresh | ClickTab string | InputLimit string | Settle nat outcome

definition step :: "event \<Rightarrow> page \<Rightarrow> page" where
  "step ev p =
     (case ev of
        ClickRefresh \<Rightarrow> if refreshDisabled p then p else runAnalysis_start True p
      | ClickTab c \<Rightarrow>
          if c \<in> set (map cat_id CATEGORIES)
          then runAnalysis_start True (renderCategoryTabs (p\<lparr>selectedCategory := c\<rparr>))
          else p
      | InputLimit v \<Rightarrow> p\<lparr>limitValue := v\<rparr>
      | Settle i out \<Rightarrow>
          if i < length (pending p)
          then runAnalysis_settle out (p\<lparr>pending := take i (pending p) @ drop (Suc i) (pending p)\<rparr>)
          else p)"

definition run :: "event list \<Rightarrow> page \<Rightarrow> page" where
  "run evs p = foldl (\<lambda>p ev. step ev p) p evs"

text \<open>
  Loading the page runs the script once: \<^verbatim>\<open>selectedCategory = "all"\<close>, the tabs are
  rendered and \<^verbatim>\<open>runAnalysis(false)\<close> is called. The argument is the page as the HTML
  document gives it.
\<close>

definition page_load :: "page \<Rightarrow> page" where
  "page_load html =
     runAnalysis_start False
       (renderCategoryTabs (html\<lparr>selectedCategory := ''all'', pending := [], sent := []\<rparr>))"

section \<open>Notions used in the statements\<close>

text \<open>The categories that get a section in the aggregate view, in display order.\<close>

definition known_categories :: "category_def list" where
  "known_categories = filter (\<lambda>c. cat_id c \<noteq> ''all'') CATEGORIES"

text \<open>An item belongs to category \<open>c\<close>: it has a trend whose category, or the fallback, is \<open>c\<close>.\<close>

definition in_category :: "string \<Rightarrow> result \<Rightarrow> bool" where
  "in_category c item = (map_option category_or_trending (trend item) = Some c)"

text \<open>A sequence of analysis results as the data model has them: every item has its trend.\<close>

definition well_formed :: "result list \<Rightarrow> bool" where
  "well_formed items = list_all (\<lambda>item. trend item \<noteq> None) items"

text \<open>The section of a category: its heading and the cards of its items, in input order.\<close>

definition section_of :: "result list \<Rightarrow> category_def \<Rightarrow> node" where
  "section_of items c =
     Section (cat_label c @ '' News'') (map Card (filter (in_category (cat_id c)) items))"

text \<open>A whole number between 0 and 100, and its value.\<close>

definition whole_percent :: "jsnum \<Rightarrow> bool" where
  "whole_percent x = (case x of Num q \<Rightarrow> 0 \<le> q \<and> q \<le> 100 \<and> of_int \<lfloor>q\<rfloor> = q | _ \<Rightarrow> False)"

definition percent_value :: "jsnum \<Rightarrow> nat" where
  "percent_value x = (case x of Num q \<Rightarrow> nat \<lfloor>q\<rfloor> | _ \<Rightarrow> 0)"

text \<open>An analysis result with a given category, verdict and fake probability.\<close>

definition sample :: "string option \<Rightarrow> string \<Rightarrow> jsnum \<Rightarrow> result" where
  "sample c v x =
     \<lparr>trend = Some \<lparr>platform = ''reddit'', title = ''A trend'', url = ''https://example.org/t'',
                      category = c\<rparr>,
      verdict = v, fake_probability = x\<rparr>"

text \<open>The heading and the cards of a section; a bare card has neither.\<close>

fun heading :: "node \<Rightarrow> string" where
  "heading (Section h cards) = h"
| "heading (Card item) = []"

fun cards_of :: "node \<Rightarrow> node list" where
  "cards_of (Section h cards) = cards"
| "cards_of (Card item) = []"






text \<open>A page before the script has run, with 20 in the limit control.\<close>

definition blank_page :: page where
  "blank_page =
     \<lparr>statusText = [], statusColor = [], refreshDisabled = False, limitValue = ''20'',
      categoryTabs = [],
      summaryEls = \<lparr>totalTrendsEl = ''0'', misleadingCountEl = ''0'', realCountEl = ''0'',
                      avgFakeEl = Chars ''0.0''\<rparr>,
      sourceHealthEl = [], resultsEl = [], selectedCategory = ''all'', pending = [], sent = []\<rparr>"

text \<open>
  Two response bodies: one batch as the backend sends it, and one whose only result has no
  \<^verbatim>\<open>trend\<close>.
\<close>

definition good_payload :: payload where
  "good_payload =
     \<lparr>results = Some [sample (Some ''sports'') ''Likely Real'' (Num 10)],
      source_health = Some [(''newsapi'', ''ok'')],
      generated = ''1/1/2026, 10:00:00 AM''\<rparr>"

definition malformed_payload :: payload where
  "malformed_payload =
     \<lparr>results = Some [\<lparr>trend = None, verdict = ''Likely Misleading'', fake_probability = Num 90\<rparr>],
      source_health = Some [(''newsapi'', ''timeout'')],
      generated = ''1/1/2026, 10:05:00 AM''\<rparr>"

text \<open>
  The failures of a refresh that happen before anything is rendered, with their message: a
  rejected fetch, a status outside 200 to 299, a body that is not JSON, is \<^verbatim>\<open>null\<close>, or
  has results that are not an array.
\<close>

definition early_failure :: "outcome \<Rightarrow> string option" where
  "early_failure out =
     (case out of
        Rejected m \<Rightarrow> Some m
      | Response status b \<Rightarrow>
          if \<not> ok status then Some (''HTTP '' @ decimal status)
          else (case b of
                  NotJson m \<Rightarrow> Some m
                | JsonNull \<Rightarrow> Some (message (reading_null ''results''))
                | JsonResultsNotArray \<Rightarrow> Some ''results.filter is not a function''
                | Json data \<Rightarrow> None))"

text \<open>
  The requests sent so far are the one of the page load, without the cache-bypass flag,
  followed by requests that all carry it.
\<close>

definition forced_after_first :: "request list \<Rightarrow> bool" where
  "forced_after_first rs =
     (rs \<noteq> [] \<and> refreshParam (hd rs) = [] \<and>
      list_all (\<lambda>r. refreshParam r = ''&refresh=true'') (tl rs))"

text \<open>
  The blank page after it was loaded and its first response, the batch above, was rendered;
  and that page after a click on the refresh button was answered with the malformed body.
\<close>

definition page_after_success :: page where
  "page_after_success = run [Settle 0 (Response 200 (Json good_payload))] (page_load blank_page)"

definition page_after_malformed :: page where
  "page_after_malformed =
     run [ClickRefresh, Settle 0 (Response 200 (Json malformed_payload))] page_after_success"

section \<open>Properties of the number model\<close>

lemma pow2_powi: "pow2 e = 2 powi e"
  by (simp add: pow2_def power_int_def inverse_eq_divide power_one_over)

lemma pow2_pos: "0 < pow2 e"
  by (simp add: pow2_def)

lemma pow2_less_iff: "pow2 a < pow2 b \<longleftrightarrow> a < b"
proof
  assume "pow2 a < pow2 b"
  show "a < b"
  proof (rule ccontr)
    assume "\<not> a < b"
    then have "b \<le> a" by simp
    then have "pow2 b \<le> pow2 a"
      unfolding pow2_powi by (intro power_int_increasing) auto
    with \<open>pow2 a < pow2 b\<close> show False by simp
  qed
next
  assume "a < b"
  then show "pow2 a < pow2 b"
    unfolding pow2_powi by (intro power_int_strict_increasing) auto
qed

lemma pow2_add: "pow2 (a + b) = pow2 a * pow2 b"
  unfolding pow2_powi by (rule power_int_add) simp

lemma pow2_nat: "pow2 (int n) = 2 ^ n"
  by (simp add: pow2_def)

lemma floor_log2_bounds:
  assumes "0 < q"
  shows "pow2 (floor_log2 q) \<le> q \<and> q < pow2 (floor_log2 q + 1)"
proof -
  obtain a b where ab: "quotient_of q = (a, b)" by (cases "quotient_of q")
  have b: "0 < b" using ab by (rule quotient_of_denom_pos)
  have q: "q = of_int a / of_int b" using ab by (rule quotient_of_div)
  have a: "0 < a" using assms b unfolding q by (simp add: zero_less_divide_iff)
  define la where "la = bitlen a"
  define lb where "lb = bitlen b"
  have la: "2 ^ nat (la - 1) \<le> a" "a < 2 ^ nat la"
    using bitlen_bounds [OF a] by (simp_all add: la_def)
  have lb: "2 ^ nat (lb - 1) \<le> b" "b < 2 ^ nat lb"
    using bitlen_bounds [OF b] by (simp_all add: lb_def)
  have la1: "1 \<le> la" using a by (simp add: la_def bitlen_alt_def)
  have lb1: "1 \<le> lb" using b by (simp add: lb_def bitlen_alt_def)
  have ra: "pow2 (la - 1) \<le> of_int a" "of_int a < pow2 la"
  proof -
    have "(of_int (2 ^ nat (la - 1)) :: rat) \<le> of_int a"
      using la(1) by (simp only: of_int_le_iff)
    then show "pow2 (la - 1) \<le> of_int a" using la1 by (simp add: pow2_def)
    have "(of_int a :: rat) < of_int (2 ^ nat la)"
      using la(2) by (simp only: of_int_less_iff)
    then show "of_int a < pow2 la" using la1 by (simp add: pow2_def)
  qed
  have rb: "pow2 (lb - 1) \<le> of_int b" "of_int b < pow2 lb"
  proof -
    have "(of_int (2 ^ nat (lb - 1)) :: rat) \<le> of_int b"
      using lb(1) by (simp only: of_int_le_iff)
    then show "pow2 (lb - 1) \<le> of_int b" using lb1 by (simp add: pow2_def)
    have "(of_int b :: rat) < of_int (2 ^ nat lb)"
      using lb(2) by (simp only: of_int_less_iff)
    then show "of_int b < pow2 lb" using lb1 by (simp add: pow2_def)
  qed
  have bpos: "(0::rat) < of_int b" using b by simp
  have lower: "pow2 (la - lb - 1) < q"
  proof -
    have "pow2 (la - lb - 1) * of_int b < pow2 (la - lb - 1) * pow2 lb"
      using rb(2) pow2_pos by simp
    also have "\<dots> = pow2 (la - 1)" by (simp flip: pow2_add)
    also have "\<dots> \<le> of_int a" by (rule ra(1))
    finally show ?thesis using bpos unfolding q by (simp add: pos_less_divide_eq)
  qed
  have upper: "q < pow2 (la - lb + 1)"
  proof -
    have "of_int a < pow2 la" by (rule ra(2))
    also have "\<dots> = pow2 (la - lb + 1) * pow2 (lb - 1)" by (simp flip: pow2_add)
    also have "\<dots> \<le> pow2 (la - lb + 1) * of_int b"
      using rb(1) pow2_pos [of "la - lb + 1"] by simp
    finally show ?thesis using bpos unfolding q by (simp add: pos_divide_less_eq)
  qed
  have fl: "floor_log2 q = (if q < pow2 (la - lb) then la - lb - 1 else la - lb)"
    by (simp add: floor_log2_def ab la_def lb_def Let_def)
  show ?thesis
  proof (cases "q < pow2 (la - lb)")
    case True
    then show ?thesis using lower fl by simp
  next
    case False
    then show ?thesis using upper fl by simp
  qed
qed

lemma floor_log2_unique:
  assumes "pow2 e \<le> q" and "q < pow2 (e + 1)"
  shows "floor_log2 q = e"
proof -
  have q: "0 < q" using pow2_pos [of e] assms(1) by simp
  from floor_log2_bounds [OF q]
  have b: "pow2 (floor_log2 q) \<le> q" "q < pow2 (floor_log2 q + 1)" by simp_all
  have "pow2 e < pow2 (floor_log2 q + 1)" using assms(1) b(2) by simp
  then have 1: "e < floor_log2 q + 1" by (simp only: pow2_less_iff)
  have "pow2 (floor_log2 q) < pow2 (e + 1)" using assms(2) b(1) by simp
  then have 2: "floor_log2 q < e + 1" by (simp only: pow2_less_iff)
  from 1 2 show ?thesis by simp
qed

lemma round_half_even_of_int: "round_half_even (of_int k) = k"
  by (simp add: round_half_even_def)

lemma round_double_of_nat:
  assumes "n < 2 ^ 53"
  shows "round_double (of_nat n) = Num (of_nat n)"
proof (cases "n = 0")
  case True
  then show ?thesis by (simp add: round_double_def)
next
  case False
  define q :: rat where "q = of_nat n"
  define e where "e = floor_log2 q"
  have q: "1 \<le> q" using False by (simp add: q_def)
  then have q0: "0 < q" by simp
  have b: "pow2 e \<le> q" "q < pow2 (e + 1)"
    using floor_log2_bounds [OF q0] by (simp_all add: e_def)
  have "pow2 0 = 1" by (simp add: pow2_def)
  then have "pow2 0 < pow2 (e + 1)" using q b(2) by simp
  then have e0: "0 \<le> e" by (simp only: pow2_less_iff)
  have "(of_nat n :: rat) < of_nat (2 ^ 53)"
    using assms by (simp only: of_nat_less_iff)
  then have "q < 2 ^ 53" by (simp add: q_def)
  moreover have "pow2 53 = 2 ^ 53" using pow2_nat [of 53] by simp
  ultimately have "pow2 e < pow2 53" using b(1) by simp
  then have e53: "e < 53" by (simp only: pow2_less_iff)
  define k where "k = int n * 2 ^ nat (52 - e)"
  have u: "pow2 (e - 52) = 1 / 2 ^ nat (52 - e)"
    using e53 by (simp add: pow2_def)
  have quot: "q / pow2 (e - 52) = of_int k"
    by (simp add: u k_def q_def)
  have prod: "of_int k * pow2 (e - 52) = q"
    by (simp add: u k_def q_def)
  have absq: "\<bar>q\<bar> = q" using q0 by simp
  have mx: "max e (- 1022) = e" using e0 by simp
  have "round_double q =
     (let r = of_int (round_half_even (q / pow2 (e - 52))) * pow2 (e - 52)
      in if r \<noteq> 0 \<and> 1024 \<le> floor_log2 \<bar>r\<bar>
         then (if 0 < q then PosInf else NegInf) else Num r)"
    using q0 unfolding round_double_def Let_def absq e_def [symmetric] mx by simp
  also have "\<dots> = Num q"
    unfolding Let_def quot round_half_even_of_int prod absq e_def [symmetric]
    using e53 by simp
  finally show ?thesis by (simp add: q_def)
qed

section \<open>\<^verbatim>\<open>Number\<close> on numeric literals\<close>





















section \<open>\<^verbatim>\<open>renderSummary\<close>: the summary of a batch\<close>

text \<open>
  Claim C3. For the empty sequence the summary is total 0, misleading 0, real 0 and
  average 0: the average is the constant 0 when there are no results, and no division
  takes place.
\<close>

theorem summarize_empty:
  "summarize [] = \<lparr>total = 0, misleading = 0, real_count = 0, avgFake = Num 0\<rparr>"
  by (simp add: summarize_def)

text \<open>The summary of fake probabilities 10, 50 and 90 with one misleading and one real verdict.\<close>

lemma spec_example_of_summary:
  "summarize [sample None ''Likely Misleading'' (Num 10), sample None ''Unverified'' (Num 50),
              sample None ''Likely Real'' (Num 90)] =
     \<lparr>total = 3, misleading = 1, real_count = 1, avgFake = Num 50\<rparr>"
  by code_simp

lemma whole_percent_Num:
  "whole_percent x \<Longrightarrow> x = Num (of_nat (percent_value x)) \<and> percent_value x \<le> 100"
  by (cases x) (auto simp: whole_percent_def percent_value_def le_floor_iff nat_le_iff floor_le_iff)

lemma js_add_exact:
  "a + b < 2 ^ 53 \<Longrightarrow> js_add (Num (of_nat a)) (Num (of_nat b)) = Num (of_nat (a + b))"
  using round_double_of_nat [of "a + b"] by simp

lemma foldl_add_exact:
  assumes "list_all (\<lambda>r. whole_percent (fake_probability r)) xs"
    and "a + 100 * length xs < 2 ^ 53"
  shows "foldl (\<lambda>sum r. js_add sum (fake_probability r)) (Num (of_nat a)) xs =
         Num (of_nat (a + sum_list (map (\<lambda>r. percent_value (fake_probability r)) xs)))"
  using assms
proof (induction xs arbitrary: a)
  case Nil
  then show ?case by simp
next
  case (Cons r xs)
  from Cons.prems(1) have w: "whole_percent (fake_probability r)" by simp
  define k where "k = percent_value (fake_probability r)"
  have r: "fake_probability r = Num (of_nat k)" and k: "k \<le> 100"
    using whole_percent_Num [OF w] by (simp_all add: k_def)
  have ak: "a + k < 2 ^ 53" using Cons.prems(2) k by simp
  have rest: "(a + k) + 100 * length xs < 2 ^ 53" using Cons.prems(2) k by simp
  have all: "list_all (\<lambda>r. whole_percent (fake_probability r)) xs" using Cons.prems(1) by simp
  have step: "js_add (Num (of_nat a)) (fake_probability r) = Num (of_nat (a + k))"
    by (simp only: r js_add_exact [OF ak])
  have "foldl (\<lambda>sum r. js_add sum (fake_probability r)) (Num (of_nat a)) (r # xs) =
        foldl (\<lambda>sum r. js_add sum (fake_probability r)) (Num (of_nat (a + k))) xs"
    by (simp only: foldl_Cons step)
  also have "\<dots> = Num (of_nat ((a + k) + sum_list (map (\<lambda>r. percent_value (fake_probability r)) xs)))"
    by (rule Cons.IH [OF all rest])
  also have "(a + k) + sum_list (map (\<lambda>r. percent_value (fake_probability r)) xs) =
             a + sum_list (map (\<lambda>r. percent_value (fake_probability r)) (r # xs))"
    by (simp add: k_def)
  finally show ?case .
qed

lemma sum_fake_exact:
  assumes "list_all (\<lambda>r. whole_percent (fake_probability r)) xs"
    and "length xs < 2 ^ 32"
  shows "sum_fake xs = Num (of_nat (sum_list (map (\<lambda>r. percent_value (fake_probability r)) xs)))"
proof -
  have "100 * length xs < 100 * 2 ^ 32" using assms(2) by simp
  also have "\<dots> < (2 ^ 53 :: nat)" by simp
  finally have "0 + 100 * length xs < 2 ^ 53" by simp
  from foldl_add_exact [OF assms(1) this] show ?thesis
    by (simp add: sum_fake_def)
qed

lemma sum_fake_permutation:
  assumes "mset ys = mset xs"
    and "list_all (\<lambda>r. whole_percent (fake_probability r)) xs"
    and "length xs < 2 ^ 32"
  shows "sum_fake ys = sum_fake xs"
proof -
  have len: "length ys = length xs" using assms(1) by (rule mset_eq_length)
  have set: "set ys = set xs" using assms(1) by (rule mset_eq_setD)
  have all: "list_all (\<lambda>r. whole_percent (fake_probability r)) ys"
    using assms(2) by (simp add: list_all_iff set)
  have "sum_list (map (\<lambda>r. percent_value (fake_probability r)) ys) =
        sum_mset (image_mset (\<lambda>r. percent_value (fake_probability r)) (mset ys))"
    by (simp flip: sum_mset_sum_list)
  also have "\<dots> = sum_list (map (\<lambda>r. percent_value (fake_probability r)) xs)"
    by (simp add: assms(1) flip: sum_mset_sum_list)
  finally show ?thesis
    using sum_fake_exact [OF all] sum_fake_exact [OF assms(2,3)] len assms(3) by simp
qed

lemma count_permutation:
  "mset ys = mset xs \<Longrightarrow> length (filter P ys) = length (filter P xs)"
  by (metis mset_filter size_mset)

text \<open>
  Claim C4, as the code has it. For a sequence of results and any permutation of it, the
  summary has the same total, the same count of misleading and the same count of real
  verdicts; and the same average fake probability whenever every fake probability is a
  whole number between 0 and 100 (an array has fewer than \<open>2^32\<close> elements), since all
  the partial sums are then exact.
\<close>

theorem summarize_permutation:
  assumes "mset ys = mset xs"
  shows "total (summarize ys) = total (summarize xs) \<and>
         misleading (summarize ys) = misleading (summarize xs) \<and>
         real_count (summarize ys) = real_count (summarize xs) \<and>
         (list_all (\<lambda>r. whole_percent (fake_probability r)) xs \<and> length xs < 2 ^ 32 \<longrightarrow>
            avgFake (summarize ys) = avgFake (summarize xs))"
proof -
  have len: "length ys = length xs" using assms by (rule mset_eq_length)
  show ?thesis
    using sum_fake_permutation [OF assms] count_permutation [OF assms]
    by (simp add: summarize_def Let_def len)
qed

text \<open>The theorem at a batch of three results and a rotation of it.\<close>

theorem summarize_permutation_witness:
  "mset [sample None ''Likely Real'' (Num 90), sample None ''Likely Misleading'' (Num 10), sample None ''Unverified'' (Num 50)] =
   mset [sample None ''Likely Misleading'' (Num 10), sample None ''Unverified'' (Num 50), sample None ''Likely Real'' (Num 90)] \<and>
   list_all (\<lambda>r. whole_percent (fake_probability r))
     [sample None ''Likely Misleading'' (Num 10), sample None ''Unverified'' (Num 50), sample None ''Likely Real'' (Num 90)] \<and>
   length [sample None ''Likely Misleading'' (Num 10), sample None ''Unverified'' (Num 50), sample None ''Likely Real'' (Num 90)] < (2 ^ 32 :: nat) \<and>
   summarize [sample None ''Likely Real'' (Num 90), sample None ''Likely Misleading'' (Num 10), sample None ''Unverified'' (Num 50)] =
   summarize [sample None ''Likely Misleading'' (Num 10), sample None ''Unverified'' (Num 50), sample None ''Likely Real'' (Num 90)]"
  using summarize_permutation
    [of "[sample None ''Likely Real'' (Num 90), sample None ''Likely Misleading'' (Num 10), sample None ''Unverified'' (Num 50)]"
        "[sample None ''Likely Misleading'' (Num 10), sample None ''Unverified'' (Num 50), sample None ''Likely Real'' (Num 90)]"]
  by (simp add: sample_def whole_percent_def)

text \<open>
  Claim C4 as stated fails at the fake probabilities 10.1, 20.2, 30.3 and 0: summed in this
  order the average is shown as 15.1, summed with the first three reversed it is shown as
  15.2, since each addition rounds to the nearest double.
\<close>

theorem average_depends_on_order:
  "mset [sample None ''Likely Real'' (round_double (303 / 10)), sample None ''Likely Real'' (round_double (202 / 10)),
         sample None ''Likely Real'' (round_double (101 / 10)), sample None ''Likely Real'' (Num 0)] =
   mset [sample None ''Likely Real'' (round_double (101 / 10)), sample None ''Likely Real'' (round_double (202 / 10)),
         sample None ''Likely Real'' (round_double (303 / 10)), sample None ''Likely Real'' (Num 0)] \<and>
   avgFakeEl (renderSummary
     [sample None ''Likely Real'' (round_double (101 / 10)), sample None ''Likely Real'' (round_double (202 / 10)),
      sample None ''Likely Real'' (round_double (303 / 10)), sample None ''Likely Real'' (Num 0)]) = Chars ''15.1'' \<and>
   avgFakeEl (renderSummary
     [sample None ''Likely Real'' (round_double (303 / 10)), sample None ''Likely Real'' (round_double (202 / 10)),
      sample None ''Likely Real'' (round_double (101 / 10)), sample None ''Likely Real'' (Num 0)]) = Chars ''15.2'' \<and>
   summarize
     [sample None ''Likely Real'' (round_double (303 / 10)), sample None ''Likely Real'' (round_double (202 / 10)),
      sample None ''Likely Real'' (round_double (101 / 10)), sample None ''Likely Real'' (Num 0)] \<noteq>
   summarize
     [sample None ''Likely Real'' (round_double (101 / 10)), sample None ''Likely Real'' (round_double (202 / 10)),
      sample None ''Likely Real'' (round_double (303 / 10)), sample None ''Likely Real'' (Num 0)]"
proof -
  let ?a = "sample None ''Likely Real'' (round_double (101 / 10))"
  let ?b = "sample None ''Likely Real'' (round_double (202 / 10))"
  let ?c = "sample None ''Likely Real'' (round_double (303 / 10))"
  let ?d = "sample None ''Likely Real'' (Num 0)"
  have p: "mset [?c, ?b, ?a, ?d] = mset [?a, ?b, ?c, ?d]" by simp
  have x: "avgFakeEl (renderSummary [?a, ?b, ?c, ?d]) = Chars ''15.1''" by code_simp
  have y: "avgFakeEl (renderSummary [?c, ?b, ?a, ?d]) = Chars ''15.2''" by code_simp
  have "summarize [?c, ?b, ?a, ?d] \<noteq> summarize [?a, ?b, ?c, ?d]"
  proof
    assume "summarize [?c, ?b, ?a, ?d] = summarize [?a, ?b, ?c, ?d]"
    then have "renderSummary [?c, ?b, ?a, ?d] = renderSummary [?a, ?b, ?c, ?d]"
      by (simp only: renderSummary_def)
    with x y show False by simp
  qed
  with p x y show ?thesis by blast
qed

section \<open>\<^verbatim>\<open>renderCards\<close>: sections and cards\<close>

lemma group_items_push:
  "group_items (push_group c item g) k =
     (if k = c then group_items g k @ [item] else group_items g k)"
  by (induction g) (auto simp: group_items_def)

lemma group_results_items:
  "group_results items g = Inr g' \<Longrightarrow>
   group_items g' c = group_items g c @ filter (in_category c) items"
proof (induction items arbitrary: g)
  case Nil
  then show ?case by simp
next
  case (Cons item items)
  then show ?case
    by (auto simp: group_items_push in_category_def split: option.splits)
qed

lemma group_results_total:
  "well_formed items \<Longrightarrow> \<exists>g'. group_results items g = Inr g'"
  by (induction items arbitrary: g) (auto simp: well_formed_def)

lemma append_cards_well_formed:
  "well_formed items \<Longrightarrow> append_cards items = (map Card items, None)"
  by (induction items) (auto simp: well_formed_def buildCard_def)

lemma render_sections_well_formed:
  assumes "\<And>c. well_formed (group_items g c)"
  shows "render_sections cs g =
     (map (\<lambda>c. Section (cat_label c @ '' News'') (map Card (group_items g (cat_id c))))
        (filter (\<lambda>c. group_items g (cat_id c) \<noteq> []) cs), None)"
  by (induction cs) (simp_all add: Let_def append_cards_well_formed [OF assms])

lemma renderCards_all_well_formed:
  assumes "well_formed items"
  shows "renderCards ''all'' items =
     (map (section_of items)
        (filter (\<lambda>c. list_ex (in_category (cat_id c)) items) known_categories), None)"
proof -
  obtain g where g: "group_results items [] = Inr g"
    using group_results_total [OF assms] by blast
  have items: "group_items g c = filter (in_category c) items" for c
    using group_results_items [OF g, of c] by (simp add: group_items_def)
  have wf: "well_formed (group_items g c)" for c
    using assms by (simp add: items well_formed_def list_all_iff)
  have ne: "(filter (in_category c) items \<noteq> []) = list_ex (in_category c) items" for c
    by (simp add: filter_empty_conv list_ex_iff)
  show ?thesis
    by (simp add: renderCards_def g render_sections_well_formed [OF wf] items ne
        known_categories_def section_of_def)
qed

lemma well_formed_permutation:
  "mset ys = mset xs \<Longrightarrow> well_formed ys = well_formed xs"
  using mset_eq_setD [of ys xs] by (simp add: well_formed_def list_all_iff)

text \<open>
  Claim C6. In the aggregate view of a well-formed batch the sections are those of the
  known categories (without the pseudo-category "all") that have at least one item, in the
  fixed order of the category list, each with the cards of its items in input order; no
  section is empty; and the sequence of headings is the same for every permutation of the
  batch.
\<close>

theorem all_mode_sections_in_fixed_order:
  assumes "well_formed items"
  shows "renderCards ''all'' items =
           (map (section_of items)
              (filter (\<lambda>c. list_ex (in_category (cat_id c)) items) known_categories), None) \<and>
         list_all (\<lambda>n. cards_of n \<noteq> []) (fst (renderCards ''all'' items)) \<and>
         (mset ys = mset items \<longrightarrow>
            map heading (fst (renderCards ''all'' ys)) =
            map heading (fst (renderCards ''all'' items)))"
proof -
  have 1: "renderCards ''all'' items =
           (map (section_of items)
              (filter (\<lambda>c. list_ex (in_category (cat_id c)) items) known_categories), None)"
    by (rule renderCards_all_well_formed [OF assms])
  have 2: "list_all (\<lambda>n. cards_of n \<noteq> []) (fst (renderCards ''all'' items))"
    by (auto simp: 1 list_all_iff section_of_def list_ex_iff filter_empty_conv)
  have 3: "map heading (fst (renderCards ''all'' ys)) =
           map heading (fst (renderCards ''all'' items))" if p: "mset ys = mset items"
  proof -
    have wf: "well_formed ys" using assms well_formed_permutation [OF p] by simp
    have set: "set ys = set items" using p by (rule mset_eq_setD)
    show ?thesis
      by (simp add: 1 renderCards_all_well_formed [OF wf] section_of_def list_ex_iff set)
  qed
  from 1 2 3 show ?thesis by blast
qed

text \<open>The theorem at a batch of a sports item, an item without category and a local item.\<close>

theorem all_mode_sections_in_fixed_order_witness:
  "well_formed [sample (Some ''sports'') ''Likely Real'' (Num 10), sample None ''Likely Real'' (Num 20),
                sample (Some ''local'') ''Likely Real'' (Num 30)] \<and>
   map heading (fst (renderCards ''all''
     [sample (Some ''sports'') ''Likely Real'' (Num 10), sample None ''Likely Real'' (Num 20),
      sample (Some ''local'') ''Likely Real'' (Num 30)])) =
   [''Local News'', ''Trending News'', ''Sports News''] \<and>
   map heading (fst (renderCards ''all''
     [sample (Some ''local'') ''Likely Real'' (Num 30), sample (Some ''sports'') ''Likely Real'' (Num 10),
      sample None ''Likely Real'' (Num 20)])) =
   [''Local News'', ''Trending News'', ''Sports News'']"
proof -
  let ?A = "[sample (Some ''sports'') ''Likely Real'' (Num 10), sample None ''Likely Real'' (Num 20),
             sample (Some ''local'') ''Likely Real'' (Num 30)]"
  let ?B = "[sample (Some ''local'') ''Likely Real'' (Num 30), sample (Some ''sports'') ''Likely Real'' (Num 10),
             sample None ''Likely Real'' (Num 20)]"
  have wf: "well_formed ?A" by (simp add: well_formed_def sample_def)
  have p: "mset ?B = mset ?A" by simp
  have a: "map heading (fst (renderCards ''all'' ?A)) = [''Local News'', ''Trending News'', ''Sports News'']"
    by code_simp
  from all_mode_sections_in_fixed_order [OF wf, of ?B] p
  have "map heading (fst (renderCards ''all'' ?B)) = map heading (fst (renderCards ''all'' ?A))"
    by blast
  with a have b: "map heading (fst (renderCards ''all'' ?B)) = [''Local News'', ''Trending News'', ''Sports News'']"
    by (simp only:)
  from wf a b show ?thesis by blast
qed

text \<open>
  Claim C5. When the selected category is not "all", the cards of a well-formed batch are
  appended one per result, in input order, without sections and without filtering.
\<close>

theorem single_category_is_flat:
  assumes "selected \<noteq> ''all''" and "well_formed items"
  shows "renderCards selected items = (map Card items, None)"
  using assms by (simp add: renderCards_def append_cards_well_formed)

text \<open>The theorem at the category "sports" and a batch that also holds a local item.\<close>

theorem single_category_is_flat_witness:
  "''sports'' \<noteq> ''all'' \<and>
   well_formed [sample (Some ''sports'') ''Likely Real'' (Num 10), sample (Some ''local'') ''Likely Real'' (Num 30)] \<and>
   renderCards ''sports''
     [sample (Some ''sports'') ''Likely Real'' (Num 10), sample (Some ''local'') ''Likely Real'' (Num 30)] =
   ([Card (sample (Some ''sports'') ''Likely Real'' (Num 10)), Card (sample (Some ''local'') ''Likely Real'' (Num 30))], None)"
proof -
  have ne: "''sports'' \<noteq> ''all''" by simp
  have wf: "well_formed [sample (Some ''sports'') ''Likely Real'' (Num 10), sample (Some ''local'') ''Likely Real'' (Num 30)]"
    by (simp add: well_formed_def sample_def)
  from single_category_is_flat [OF ne wf] ne wf show ?thesis by simp
qed

lemma filter_disjoint_union:
  assumes "\<And>x. \<not> (P x \<and> Q x)"
  shows "mset (filter P xs) + mset (filter Q xs) = mset (filter (\<lambda>x. P x \<or> Q x) xs)"
  using assms by (induction xs) auto

lemma groups_cover:
  assumes "distinct ks"
  shows "mset (concat (map (\<lambda>k. filter (\<lambda>x. f x = k) xs) ks)) =
         mset (filter (\<lambda>x. f x \<in> set ks) xs)"
  using assms
proof (induction ks)
  case Nil
  then show ?case by simp
next
  case (Cons k ks)
  have "mset (filter (\<lambda>x. f x = k) xs) + mset (filter (\<lambda>x. f x \<in> set ks) xs) =
        mset (filter (\<lambda>x. f x = k \<or> f x \<in> set ks) xs)"
    using Cons.prems by (intro filter_disjoint_union) auto
  with Cons show ?case by simp
qed

lemma concat_skip_empty:
  "concat (map f (filter (\<lambda>c. f c \<noteq> []) cs)) = concat (map f cs)"
  by (induction cs) auto

text \<open>
  What the aggregate view does fulfil: when every item of a well-formed batch has a
  known category or none, the cards of all sections together are the cards of the input,
  each exactly once, and an item without category is in the group "trending".
\<close>

lemma all_mode_partition_of_known:
  assumes "well_formed items"
    and "list_all (\<lambda>item. list_ex (\<lambda>c. in_category (cat_id c) item) known_categories) items"
  shows "mset (concat (map cards_of (fst (renderCards ''all'' items)))) = mset (map Card items)"
proof -
  define cat :: "result \<Rightarrow> string option" where "cat = (\<lambda>item. map_option category_or_trending (trend item))"
  define ks where "ks = map (\<lambda>c. Some (cat_id c)) known_categories"
  have d: "distinct ks"
    by (simp add: ks_def known_categories_def CATEGORIES_def)
  have in_cat: "in_category c item = (cat item = Some c)" for c item
    by (simp add: in_category_def cat_def)
  have all: "filter (\<lambda>x. cat x \<in> set ks) items = items"
    using assms(2) by (auto simp: list_all_iff list_ex_iff in_cat ks_def filter_id_conv)
  have "concat (map cards_of (fst (renderCards ''all'' items))) =
        concat (map (\<lambda>c. map Card (filter (in_category (cat_id c)) items))
          (filter (\<lambda>c. list_ex (in_category (cat_id c)) items) known_categories))"
    by (simp add: renderCards_all_well_formed [OF assms(1)] section_of_def comp_def)
  also have "\<dots> = concat (map (\<lambda>c. map Card (filter (in_category (cat_id c)) items)) known_categories)"
    using concat_skip_empty [of "\<lambda>c. map Card (filter (in_category (cat_id c)) items)" known_categories]
    by (simp add: list_ex_iff filter_empty_conv)
  also have "\<dots> = map Card (concat (map (\<lambda>k. filter (\<lambda>x. cat x = k) items) ks))"
    by (simp add: ks_def map_concat comp_def in_cat [abs_def])
  finally have "mset (concat (map cards_of (fst (renderCards ''all'' items)))) =
        image_mset Card (mset (concat (map (\<lambda>k. filter (\<lambda>x. cat x = k) items) ks)))"
    by simp
  also have "\<dots> = image_mset Card (mset items)"
    by (simp only: groups_cover [OF d] all)
  finally show ?thesis by simp
qed

lemma missing_category_is_trending:
  "in_category ''trending'' (sample None v x)" "in_category ''trending'' (sample (Some []) v x)"
  by (simp_all add: in_category_def sample_def category_or_trending_def)

text \<open>
  Claim C1 at a batch of one result whose category is none of the known ones: the
  aggregate view shows no section and no card, although the summary counts the result.
\<close>

theorem unrecognized_category_is_dropped:
  "renderCards ''all'' [sample (Some ''politics'') ''Likely Real'' (Num 10)] = ([], None) \<and>
   totalTrendsEl (renderSummary [sample (Some ''politics'') ''Likely Real'' (Num 10)]) = ''1''"
  by code_simp

section \<open>\<^verbatim>\<open>renderSourceHealth\<close>: labels and flags\<close>

lemma startsWith_iff: "startsWith s p \<longleftrightarrow> (\<exists>b. s = p @ b)"
  by (metis append_eq_conv_conj append_take_drop_id startsWith_def)

lemma includes_str_iff: "includes_str s p \<longleftrightarrow> (\<exists>a b. s = a @ p @ b)"
proof (induction s)
  case Nil
  then show ?case by auto
next
  case (Cons c s)
  show ?case
  proof
    assume "includes_str (c # s) p"
    then consider "startsWith (c # s) p" | "includes_str s p" by auto
    then show "\<exists>a b. c # s = a @ p @ b"
    proof cases
      case 1
      then obtain b where "c # s = p @ b" by (auto simp: startsWith_iff)
      then have "c # s = [] @ p @ b" by simp
      then show ?thesis by blast
    next
      case 2
      then obtain a b where "s = a @ p @ b" using Cons.IH by blast
      then have "c # s = (c # a) @ p @ b" by simp
      then show ?thesis by blast
    qed
  next
    assume "\<exists>a b. c # s = a @ p @ b"
    then obtain a b where ab: "c # s = a @ p @ b" by blast
    show "includes_str (c # s) p"
    proof (cases a)
      case Nil
      then have "startsWith (c # s) p" using ab by (auto simp: startsWith_iff)
      then show ?thesis by simp
    next
      case (Cons x a')
      then have "s = a' @ p @ b" using ab by simp
      then have "includes_str s p" using Cons.IH by blast
      then show ?thesis by simp
    qed
  qed
qed

text \<open>
  What the pills do fulfil: there is one pill per entry, in order; the pill is
  marked ok exactly when the status starts with "ok" or contains "fallback"; and the label
  is the source name with its underscores replaced by spaces, a colon, a space and the
  raw status, provided the name has at most one underscore.
\<close>

lemma pill_flag:
  "map className (renderSourceHealth h) =
     map (\<lambda>(source, status).
            if (\<exists>b. status = ''ok'' @ b) \<or> (\<exists>a b. status = a @ ''fallback'' @ b)
            then ''source-pill ok'' else ''source-pill warn'') h"
  by (simp add: renderSourceHealth_def status_ok_def startsWith_iff includes_str_iff
      case_prod_unfold comp_def)

lemma replace_underscore_all:
  "count_list source CHR ''_'' \<le> 1 \<Longrightarrow>
   replace_underscore source = map (\<lambda>c. if c = CHR ''_'' then CHR '' '' else c) source"
proof (induction source)
  case Nil
  then show ?case by simp
next
  case (Cons c cs)
  show ?case
  proof (cases "c = CHR ''_''")
    case True
    then have "count_list cs CHR ''_'' = 0" using Cons.prems by simp
    then have "CHR ''_'' \<notin> set cs" by (simp add: count_list_0_iff)
    then have "map (\<lambda>c. if c = CHR ''_'' then CHR '' '' else c) cs = cs"
      by (induction cs) auto
    with True show ?thesis by simp
  next
    case False
    then show ?thesis using Cons by simp
  qed
qed

lemma pill_label:
  "list_all (\<lambda>(source, status). count_list source CHR ''_'' \<le> 1) h \<Longrightarrow>
   map textContent (renderSourceHealth h) =
     map (\<lambda>(source, status).
            map (\<lambda>c. if c = CHR ''_'' then CHR '' '' else c) source @ '': '' @ status) h"
  by (induction h) (auto simp: renderSourceHealth_def replace_underscore_all)

text \<open>Three single entries: an ok status, a warning, a fallback.\<close>

lemma spec_examples_of_health:
  "renderSourceHealth [(''twitter_api'', ''ok - cached'')] =
     [\<lparr>className = ''source-pill ok'', textContent = ''twitter api: ok - cached''\<rparr>]"
  "renderSourceHealth [(''newsapi'', ''timeout'')] =
     [\<lparr>className = ''source-pill warn'', textContent = ''newsapi: timeout''\<rparr>]"
  "renderSourceHealth [(''rss'', ''fallback-used'')] =
     [\<lparr>className = ''source-pill ok'', textContent = ''rss: fallback-used''\<rparr>]"
  by (simp_all add: renderSourceHealth_def status_ok_def startsWith_def)

text \<open>
  Claim C2 at a source name with two underscores: only the first one becomes a space.
\<close>

theorem second_underscore_is_kept:
  "renderSourceHealth [(''google_news_rss'', ''ok'')] =
     [\<lparr>className = ''source-pill ok'', textContent = ''google news_rss: ok''\<rparr>]"
  by (simp add: renderSourceHealth_def status_ok_def startsWith_def)

section \<open>The requests of \<^verbatim>\<open>runAnalysis\<close>\<close>

lemma category_ids_unreserved:
  "c \<in> set (map cat_id CATEGORIES) \<Longrightarrow> encodeURIComponent c = c"
  by (auto simp: CATEGORIES_def encodeURIComponent_def unreserved_def less_eq_char_def)

lemma sent_runAnalysis_start:
  "sent (runAnalysis_start f p) =
     sent p @ [\<lparr>limit = limit_of (limitValue p),
                 category_param = encodeURIComponent (selectedCategory p),
                 refreshParam = (if f then ''&refresh=true'' else [])\<rparr>]"
  by (simp add: runAnalysis_start_def setStatus_def Let_def)

lemma pending_runAnalysis_start:
  "pending (runAnalysis_start f p) =
     pending p @ [\<lparr>limit = limit_of (limitValue p),
                    category_param = encodeURIComponent (selectedCategory p),
                    refreshParam = (if f then ''&refresh=true'' else [])\<rparr>]"
  by (simp add: runAnalysis_start_def setStatus_def Let_def)

lemma runAnalysis_start_fields:
  "selectedCategory (runAnalysis_start f p) = selectedCategory p"
  "limitValue (runAnalysis_start f p) = limitValue p"
  "summaryEls (runAnalysis_start f p) = summaryEls p"
  "sourceHealthEl (runAnalysis_start f p) = sourceHealthEl p"
  "resultsEl (runAnalysis_start f p) = resultsEl p"
  "refreshDisabled (runAnalysis_start f p)"
  by (simp_all add: runAnalysis_start_def setStatus_def Let_def)

lemma render_data_fields:
  "selectedCategory (fst (render_data data p)) = selectedCategory p"
  "pending (fst (render_data data p)) = pending p"
  "limitValue (fst (render_data data p)) = limitValue p"
  by (simp_all add: render_data_def setStatus_def Let_def split: prod.splits option.splits)

lemma try_block_fields:
  "selectedCategory (fst (try_block out p)) = selectedCategory p"
  "pending (fst (try_block out p)) = pending p"
  "limitValue (fst (try_block out p)) = limitValue p"
  by (simp_all add: try_block_def render_data_fields split: outcome.splits body.splits)

lemma runAnalysis_settle_fields:
  "selectedCategory (runAnalysis_settle out p) = selectedCategory p"
  "pending (runAnalysis_settle out p) = pending p"
  "limitValue (runAnalysis_settle out p) = limitValue p"
  "\<not> refreshDisabled (runAnalysis_settle out p)"
proof -
  obtain p' e where t: "try_block out p = (p', e)" by (cases "try_block out p")
  have "selectedCategory p' = selectedCategory p" "pending p' = pending p"
    "limitValue p' = limitValue p"
    using try_block_fields [of out p] by (simp_all add: t)
  then show "selectedCategory (runAnalysis_settle out p) = selectedCategory p"
    "pending (runAnalysis_settle out p) = pending p"
    "limitValue (runAnalysis_settle out p) = limitValue p"
    "\<not> refreshDisabled (runAnalysis_settle out p)"
    by (simp_all add: runAnalysis_settle_def t setStatus_def split: option.splits)
qed

lemma sent_render_data: "sent (fst (render_data data p)) = sent p"
  by (simp add: render_data_def setStatus_def Let_def split: prod.splits option.splits)

lemma sent_try_block: "sent (fst (try_block out p)) = sent p"
  by (simp add: try_block_def sent_render_data split: outcome.splits body.splits)

lemma sent_runAnalysis_settle: "sent (runAnalysis_settle out p) = sent p"
proof (cases "try_block out p")
  case (Pair p' e)
  then have "sent p' = sent p" using sent_try_block [of out p] by simp
  then show ?thesis
    by (simp add: runAnalysis_settle_def Pair setStatus_def split: option.splits)
qed

lemma sent_step:
  "sent (step ev p) = sent p \<or>
   (\<exists>r. sent (step ev p) = sent p @ [r] \<and> refreshParam r = ''&refresh=true'')"
  by (cases ev)
     (simp_all add: step_def sent_runAnalysis_start sent_runAnalysis_settle renderCategoryTabs_def)

lemma forced_after_first_step:
  "forced_after_first (sent p) \<Longrightarrow> forced_after_first (sent (step ev p))"
  using sent_step [of ev p] by (auto simp: forced_after_first_def)

lemma forced_after_first_run:
  "forced_after_first (sent p) \<Longrightarrow> forced_after_first (sent (run evs p))"
  unfolding run_def by (induction evs arbitrary: p) (simp_all add: forced_after_first_step)

lemma sent_page_load:
  "sent (page_load html) =
     [\<lparr>limit = limit_of (limitValue html), category_param = ''all'', refreshParam = []\<rparr>]"
  by (simp add: page_load_def sent_runAnalysis_start renderCategoryTabs_def encodeURIComponent_def
      unreserved_def less_eq_char_def)

text \<open>
  Claim C10. A click on the tab of a category sends one request, for that category, with
  the cache-bypass flag \<open>&refresh=true\<close>; the request of the page load has no flag and is
  the first one; and whatever happens afterwards, every later request has the flag.
\<close>

theorem tab_selection_forces_refresh:
  "(c \<in> set (map cat_id CATEGORIES) \<longrightarrow>
      sent (step (ClickTab c) p) =
        sent p @ [\<lparr>limit = limit_of (limitValue p), category_param = c,
                    refreshParam = ''&refresh=true''\<rparr>]) \<and>
   sent (page_load html) =
     [\<lparr>limit = limit_of (limitValue html), category_param = ''all'', refreshParam = []\<rparr>] \<and>
   hd (sent (run evs (page_load html))) = hd (sent (page_load html)) \<and>
   list_all (\<lambda>r. refreshParam r = ''&refresh=true'') (tl (sent (run evs (page_load html))))"
proof -
  have 1: "sent (step (ClickTab c) p) =
        sent p @ [\<lparr>limit = limit_of (limitValue p), category_param = c,
                    refreshParam = ''&refresh=true''\<rparr>]"
    if "c \<in> set (map cat_id CATEGORIES)"
    using that category_ids_unreserved [OF that]
    by (simp add: step_def sent_runAnalysis_start renderCategoryTabs_def)
  have f: "forced_after_first (sent (page_load html))"
    by (simp add: sent_page_load forced_after_first_def)
  have 3: "list_all (\<lambda>r. refreshParam r = ''&refresh=true'') (tl (sent (run evs (page_load html))))"
    using forced_after_first_run [OF f, of evs] by (simp add: forced_after_first_def)
  have prefix: "\<exists>rs. sent (run evs q) = sent q @ rs" for q
    unfolding run_def
  proof (induction evs arbitrary: q)
    case Nil
    then show ?case by simp
  next
    case (Cons ev evs)
    obtain rs where "sent (foldl (\<lambda>p ev. step ev p) (step ev q) evs) = sent (step ev q) @ rs"
      using Cons [of "step ev q"] by blast
    then show ?case using sent_step [of ev q] by auto
  qed
  have 2: "hd (sent (run evs (page_load html))) = hd (sent (page_load html))"
    using prefix [of "page_load html"] by (auto simp: sent_page_load)
  from 1 sent_page_load 2 3 show ?thesis by blast
qed

text \<open>The theorem at a click on the tab "Sports" right after the blank page was loaded.\<close>

theorem tab_selection_forces_refresh_witness:
  "''sports'' \<in> set (map cat_id CATEGORIES) \<and>
   sent (step (ClickTab ''sports'') (page_load blank_page)) =
     [\<lparr>limit = Num 20, category_param = ''all'', refreshParam = []\<rparr>,
      \<lparr>limit = Num 20, category_param = ''sports'', refreshParam = ''&refresh=true''\<rparr>] \<and>
   list_all (\<lambda>r. refreshParam r = ''&refresh=true'')
     (tl (sent (run [ClickTab ''sports'', Settle 0 (Rejected ''Failed to fetch''), ClickRefresh]
        (page_load blank_page))))"
proof -
  have m: "''sports'' \<in> set (map cat_id CATEGORIES)" by (simp add: CATEGORIES_def)
  have l: "limit_of ''20'' = Num 20" by code_simp
  have v: "limitValue blank_page = ''20''" by (simp add: blank_page_def)
  have v': "limitValue (page_load blank_page) = ''20''"
    by (simp add: page_load_def runAnalysis_start_fields renderCategoryTabs_def v)
  from tab_selection_forces_refresh
    [of "''sports''" "page_load blank_page" blank_page
        "[ClickTab ''sports'', Settle 0 (Rejected ''Failed to fetch''), ClickRefresh]"]
  show ?thesis using m by (simp add: l v v')
qed



text \<open>
  The default rests on the control: a non-empty string that is not a number, which a
  numeric control never hands over, the script itself turns into NaN.
\<close>

lemma limit_of_text_that_is_no_number:
  "limit (last (sent (runAnalysis_start True (blank_page\<lparr>limitValue := ''abc''\<rparr>)))) = NaN"
proof -
  have "StringToNumber ''abc'' = NaN" by code_simp
  then show ?thesis by (simp add: sent_runAnalysis_start limit_of_def)
qed

section \<open>A refresh that fails\<close>

lemma try_block_early_failure:
  "early_failure out = Some m \<Longrightarrow> \<exists>e. try_block out p = (p, Some e) \<and> message e = m"
  by (auto simp: early_failure_def try_block_def split: outcome.splits body.splits if_splits)

text \<open>What a response with a success status and a parsed body leaves on the page.\<close>

lemma settle_json:
  fixes data :: payload and p :: page and i :: nat and status :: nat
  assumes "i < length (pending p)" and "ok status"
  defines "rs \<equiv> (case results data of None \<Rightarrow> [] | Some xs \<Rightarrow> xs)"
  defines "p' \<equiv> step (Settle i (Response status (Json data))) p"
  shows "summaryEls p' = renderSummary rs"
    and "sourceHealthEl p' =
           renderSourceHealth (case source_health data of None \<Rightarrow> [] | Some h \<Rightarrow> h)"
    and "resultsEl p' = fst (renderCards (selectedCategory p) rs)"
    and "statusText p' =
           (case snd (renderCards (selectedCategory p) rs) of
              None \<Rightarrow> ''Updated at '' @ generated data @ ''.''
            | Some e \<Rightarrow> ''Failed to load analysis: '' @ message e)"
    and "statusColor p' =
           (case snd (renderCards (selectedCategory p) rs) of
              None \<Rightarrow> ''#5d6b72'' | Some e \<Rightarrow> ''#8d2519'')"
proof -
  obtain nodes e where r: "renderCards (selectedCategory p) rs = (nodes, e)"
    by (cases "renderCards (selectedCategory p) rs")
  show "summaryEls p' = renderSummary rs"
    and "sourceHealthEl p' =
           renderSourceHealth (case source_health data of None \<Rightarrow> [] | Some h \<Rightarrow> h)"
    and "resultsEl p' = fst (renderCards (selectedCategory p) rs)"
    and "statusText p' =
           (case snd (renderCards (selectedCategory p) rs) of
              None \<Rightarrow> ''Updated at '' @ generated data @ ''.''
            | Some e \<Rightarrow> ''Failed to load analysis: '' @ message e)"
    and "statusColor p' =
           (case snd (renderCards (selectedCategory p) rs) of
              None \<Rightarrow> ''#5d6b72'' | Some e \<Rightarrow> ''#8d2519'')"
    using assms(1,2) r
    by (cases e; simp add: p'_def step_def runAnalysis_settle_def try_block_def render_data_def
        rs_def [symmetric] Let_def setStatus_def)+
qed

text \<open>The page after the first batch was rendered, and after a click on the refresh button.\<close>

lemma page_after_success_content:
  "summaryEls page_after_success =
     \<lparr>totalTrendsEl = ''1'', misleadingCountEl = ''0'', realCountEl = ''1'',
      avgFakeEl = Chars ''10.0''\<rparr>"
  "sourceHealthEl page_after_success =
     [\<lparr>className = ''source-pill ok'', textContent = ''newsapi: ok''\<rparr>]"
  "resultsEl page_after_success =
     [Section ''Sports News'' [Card (sample (Some ''sports'') ''Likely Real'' (Num 10))]]"
  "pending page_after_success = []"
  "\<not> refreshDisabled page_after_success"
proof -
  define p0 where "p0 = page_load blank_page"
  have p0: "selectedCategory p0 = ''all''" "length (pending p0) = 1"
    by (simp_all add: p0_def page_load_def runAnalysis_start_fields pending_runAnalysis_start
        renderCategoryTabs_def)
  have i0: "0 < length (pending p0)" using p0 by simp
  have ok: "ok 200" by (simp add: ok_def)
  have p1: "page_after_success = step (Settle 0 (Response 200 (Json good_payload))) p0"
    by (simp add: page_after_success_def run_def p0_def)
  have good: "results good_payload = Some [sample (Some ''sports'') ''Likely Real'' (Num 10)]"
    "source_health good_payload = Some [(''newsapi'', ''ok'')]"
    by (simp_all add: good_payload_def)
  have s: "renderSummary [sample (Some ''sports'') ''Likely Real'' (Num 10)] =
     \<lparr>totalTrendsEl = ''1'', misleadingCountEl = ''0'', realCountEl = ''1'',
      avgFakeEl = Chars ''10.0''\<rparr>"
    by code_simp
  have c: "renderCards ''all'' [sample (Some ''sports'') ''Likely Real'' (Num 10)] =
     ([Section ''Sports News'' [Card (sample (Some ''sports'') ''Likely Real'' (Num 10))]], None)"
    by code_simp
  have h: "renderSourceHealth [(''newsapi'', ''ok'')] =
     [\<lparr>className = ''source-pill ok'', textContent = ''newsapi: ok''\<rparr>]"
    by (simp add: renderSourceHealth_def status_ok_def startsWith_def)
  show "summaryEls page_after_success =
     \<lparr>totalTrendsEl = ''1'', misleadingCountEl = ''0'', realCountEl = ''1'',
      avgFakeEl = Chars ''10.0''\<rparr>"
    by (simp add: p1 settle_json [OF i0 ok] good s)
  show "sourceHealthEl page_after_success =
     [\<lparr>className = ''source-pill ok'', textContent = ''newsapi: ok''\<rparr>]"
    by (simp add: p1 settle_json [OF i0 ok] good h)
  show "resultsEl page_after_success =
     [Section ''Sports News'' [Card (sample (Some ''sports'') ''Likely Real'' (Num 10))]]"
    by (simp add: p1 settle_json [OF i0 ok] good p0 c)
  show "pending page_after_success = []" "\<not> refreshDisabled page_after_success"
    using p0 by (simp_all add: p1 step_def runAnalysis_settle_fields)
qed

text \<open>
  Claim C7, as the code has it. When a pending fetch settles with a failure that happens
  before anything is rendered (the fetch is rejected, the status is not a success, or the
  body is not JSON, is \<^verbatim>\<open>null\<close> or has results that are not an array), the page is as
  before except for four things: the fetch is no longer pending, the status line reads
  "Failed to load analysis: " followed by the message, it has the error colour, and the
  refresh button is enabled. In particular the summary, the cards, the health pills and
  the tabs stay as they were.
\<close>

theorem early_failure_keeps_content:
  assumes "i < length (pending p)" and "early_failure out = Some m"
  shows "step (Settle i out) p =
           p\<lparr>pending := take i (pending p) @ drop (Suc i) (pending p),
             statusText := ''Failed to load analysis: '' @ m,
             statusColor := ''#8d2519'',
             refreshDisabled := False\<rparr> \<and>
         summaryEls (step (Settle i out) p) = summaryEls p \<and>
         resultsEl (step (Settle i out) p) = resultsEl p \<and>
         sourceHealthEl (step (Settle i out) p) = sourceHealthEl p \<and>
         categoryTabs (step (Settle i out) p) = categoryTabs p \<and>
         statusText (step (Settle i out) p) = ''Failed to load analysis: '' @ m \<and>
         statusColor (step (Settle i out) p) = ''#8d2519'' \<and>
         \<not> refreshDisabled (step (Settle i out) p)"
proof -
  define q where "q = p\<lparr>pending := take i (pending p) @ drop (Suc i) (pending p)\<rparr>"
  obtain e where e: "try_block out q = (q, Some e)" "message e = m"
    using try_block_early_failure [OF assms(2), of q] by blast
  have "step (Settle i out) p = runAnalysis_settle out q"
    using assms(1) by (simp add: step_def q_def)
  also have "\<dots> = (setStatus (''Failed to load analysis: '' @ m) True q)\<lparr>refreshDisabled := False\<rparr>"
    by (simp add: runAnalysis_settle_def e)
  finally have "step (Settle i out) p =
           p\<lparr>pending := take i (pending p) @ drop (Suc i) (pending p),
             statusText := ''Failed to load analysis: '' @ m,
             statusColor := ''#8d2519'',
             refreshDisabled := False\<rparr>"
    by (simp add: setStatus_def q_def)
  then show ?thesis by simp
qed

text \<open>
  The theorem at the page that shows the first batch, after a click on the refresh button
  whose request is answered with status 503: the batch is still shown.
\<close>

theorem early_failure_keeps_content_witness:
  "0 < length (pending (step ClickRefresh page_after_success)) \<and>
   early_failure (Response 503 (NotJson ''Unexpected token'')) = Some ''HTTP 503'' \<and>
   refreshDisabled (step ClickRefresh page_after_success) \<and>
   summaryEls (step (Settle 0 (Response 503 (NotJson ''Unexpected token'')))
                 (step ClickRefresh page_after_success)) =
     \<lparr>totalTrendsEl = ''1'', misleadingCountEl = ''0'', realCountEl = ''1'',
      avgFakeEl = Chars ''10.0''\<rparr> \<and>
   resultsEl (step (Settle 0 (Response 503 (NotJson ''Unexpected token'')))
                (step ClickRefresh page_after_success)) =
     [Section ''Sports News'' [Card (sample (Some ''sports'') ''Likely Real'' (Num 10))]] \<and>
   sourceHealthEl (step (Settle 0 (Response 503 (NotJson ''Unexpected token'')))
                     (step ClickRefresh page_after_success)) =
     [\<lparr>className = ''source-pill ok'', textContent = ''newsapi: ok''\<rparr>] \<and>
   statusText (step (Settle 0 (Response 503 (NotJson ''Unexpected token'')))
                 (step ClickRefresh page_after_success)) =
     ''Failed to load analysis: HTTP 503'' \<and>
   \<not> refreshDisabled (step (Settle 0 (Response 503 (NotJson ''Unexpected token'')))
                          (step ClickRefresh page_after_success))"
proof -
  define p where "p = step ClickRefresh page_after_success"
  have p: "p = runAnalysis_start True page_after_success"
    by (simp add: p_def step_def page_after_success_content)
  have 1: "0 < length (pending p)"
    by (simp add: p pending_runAnalysis_start)
  have d: "decimal 503 = ''503''" by code_simp
  have 2: "early_failure (Response 503 (NotJson ''Unexpected token'')) = Some ''HTTP 503''"
    by (simp add: early_failure_def ok_def d)
  have 3: "refreshDisabled p" "summaryEls p = summaryEls page_after_success"
    "resultsEl p = resultsEl page_after_success"
    "sourceHealthEl p = sourceHealthEl page_after_success"
    by (simp_all add: p runAnalysis_start_fields)
  from early_failure_keeps_content [OF 1 2]
  have "summaryEls (step (Settle 0 (Response 503 (NotJson ''Unexpected token''))) p) = summaryEls p"
    "resultsEl (step (Settle 0 (Response 503 (NotJson ''Unexpected token''))) p) = resultsEl p"
    "sourceHealthEl (step (Settle 0 (Response 503 (NotJson ''Unexpected token''))) p) = sourceHealthEl p"
    "statusText (step (Settle 0 (Response 503 (NotJson ''Unexpected token''))) p) =
       ''Failed to load analysis: HTTP 503''"
    "\<not> refreshDisabled (step (Settle 0 (Response 503 (NotJson ''Unexpected token''))) p)"
    by simp_all
  with 1 2 3 show ?thesis
    unfolding p_def [symmetric] by (simp add: page_after_success_content)
qed

text \<open>
  Claim C7 as stated fails when the body parses but a result in it has no \<^verbatim>\<open>trend\<close>:
  the refresh fails with the message of the \<^verbatim>\<open>TypeError\<close>, yet by then the summary and
  the health pills show the new batch and the cards of the previous batch are gone.
\<close>

theorem malformed_payload_renders_partially:
  "statusText page_after_malformed =
     ''Failed to load analysis: Cannot read properties of undefined (reading 'category')'' \<and>
   statusColor page_after_malformed = ''#8d2519'' \<and>
   summaryEls page_after_malformed \<noteq> summaryEls page_after_success \<and>
   sourceHealthEl page_after_malformed \<noteq> sourceHealthEl page_after_success \<and>
   resultsEl page_after_malformed \<noteq> resultsEl page_after_success"
proof -
  define p0 where "p0 = page_load blank_page"
  define p1 where "p1 = step (Settle 0 (Response 200 (Json good_payload))) p0"
  define p2 where "p2 = step ClickRefresh p1"
  define p3 where "p3 = step (Settle 0 (Response 200 (Json malformed_payload))) p2"
  have ok: "ok 200" by (simp add: ok_def)
  have p0: "selectedCategory p0 = ''all''" "length (pending p0) = 1"
    by (simp_all add: p0_def page_load_def runAnalysis_start_fields pending_runAnalysis_start
        renderCategoryTabs_def)
  have p1: "selectedCategory p1 = ''all''" "pending p1 = []" "\<not> refreshDisabled p1"
    using p0 by (simp_all add: p1_def step_def runAnalysis_settle_fields)
  have p2: "selectedCategory p2 = ''all''" "length (pending p2) = 1"
    "summaryEls p2 = summaryEls p1" "sourceHealthEl p2 = sourceHealthEl p1"
    "resultsEl p2 = resultsEl p1"
    using p1 by (simp_all add: p2_def step_def runAnalysis_start_fields pending_runAnalysis_start)
  have i0: "0 < length (pending p0)" "0 < length (pending p2)" using p0 p2 by simp_all
  have good: "results good_payload = Some [sample (Some ''sports'') ''Likely Real'' (Num 10)]"
    "source_health good_payload = Some [(''newsapi'', ''ok'')]"
    by (simp_all add: good_payload_def)
  have bad: "results malformed_payload =
      Some [\<lparr>trend = None, verdict = ''Likely Misleading'', fake_probability = Num 90\<rparr>]"
    "source_health malformed_payload = Some [(''newsapi'', ''timeout'')]"
    by (simp_all add: malformed_payload_def)
  have s1: "avgFakeEl (renderSummary [sample (Some ''sports'') ''Likely Real'' (Num 10)]) = Chars ''10.0''"
    by code_simp
  have s3: "avgFakeEl (renderSummary
      [\<lparr>trend = None, verdict = ''Likely Misleading'', fake_probability = Num 90\<rparr>]) = Chars ''90.0''"
    by code_simp
  have c1: "fst (renderCards ''all'' [sample (Some ''sports'') ''Likely Real'' (Num 10)]) \<noteq> []"
    by code_simp
  have c3: "renderCards ''all''
      [\<lparr>trend = None, verdict = ''Likely Misleading'', fake_probability = Num 90\<rparr>] =
      ([], Some (reading_undefined ''category''))"
    by (simp add: renderCards_def)
  have h: "renderSourceHealth [(''newsapi'', ''timeout'')] \<noteq> renderSourceHealth [(''newsapi'', ''ok'')]"
    by (simp add: renderSourceHealth_def)
  have "summaryEls p3 \<noteq> summaryEls p1"
    using s1 s3 by (auto simp: p1_def p3_def settle_json [OF i0(1) ok] settle_json [OF i0(2) ok] good bad)
  moreover have "sourceHealthEl p3 \<noteq> sourceHealthEl p1"
    using h by (simp add: p1_def p3_def settle_json [OF i0(1) ok] settle_json [OF i0(2) ok] good bad)
  moreover have "resultsEl p3 \<noteq> resultsEl p1"
    using c1 by (simp add: p1_def [symmetric] p3_def settle_json [OF i0(2) ok] bad p2 c3)
      (simp add: p1_def settle_json [OF i0(1) ok] good p0)
  moreover have "statusText p3 =
     ''Failed to load analysis: Cannot read properties of undefined (reading 'category')''"
    "statusColor p3 = ''#8d2519''"
    by (simp_all add: p3_def settle_json [OF i0(2) ok] bad p2 c3 reading_undefined_def)
  moreover have "page_after_success = p1"
    by (simp add: page_after_success_def run_def p1_def p0_def)
  moreover have "page_after_malformed = p3"
    by (simp add: page_after_malformed_def run_def p3_def p2_def \<open>page_after_success = p1\<close>)
  ultimately show ?thesis by simp
qed

section \<open>Requests while one is pending\<close>

text \<open>Only the refresh button is guarded: while it is disabled, a click on it does nothing.\<close>

lemma refresh_button_is_inert_while_disabled:
  "refreshDisabled p \<Longrightarrow> step ClickRefresh p = p"
  by (simp add: step_def)

lemma page_load_disables_refresh: "refreshDisabled (page_load html)"
  by (simp add: page_load_def runAnalysis_start_def Let_def)

lemma pending_after_tab_click:
  "pending (step (ClickTab ''sports'') (page_load html)) =
     [\<lparr>limit = limit_of (limitValue html), category_param = ''all'', refreshParam = []\<rparr>,
      \<lparr>limit = limit_of (limitValue html), category_param = ''sports'',
        refreshParam = ''&refresh=true''\<rparr>]"
proof -
  have s: "''sports'' \<in> set (map cat_id CATEGORIES)" by (simp add: CATEGORIES_def)
  have e: "encodeURIComponent ''all'' = ''all''"
    by (rule category_ids_unreserved) (simp add: CATEGORIES_def)
  have l: "limitValue (page_load html) = limitValue html"
    by (simp add: page_load_def runAnalysis_start_fields renderCategoryTabs_def)
  have p: "pending (page_load html) =
     [\<lparr>limit = limit_of (limitValue html), category_param = ''all'', refreshParam = []\<rparr>]"
    by (simp add: page_load_def pending_runAnalysis_start renderCategoryTabs_def e)
  have "pending (step (ClickTab ''sports'') (page_load html)) =
     pending (page_load html) @
       [\<lparr>limit = limit_of (limitValue html), category_param = ''sports'',
          refreshParam = ''&refresh=true''\<rparr>]"
    using s category_ids_unreserved [OF s]
    by (simp add: step_def pending_runAnalysis_start renderCategoryTabs_def l)
  with p show ?thesis by simp
qed

text \<open>
  Claim C8 at a click on the tab "Sports" while the request of the page load is still
  pending: the refresh button is disabled, yet the click sends a second request and both
  are pending together.
\<close>

theorem tab_click_sends_concurrent_request:
  "refreshDisabled (page_load html) \<and>
   pending (step (ClickTab ''sports'') (page_load html)) =
     [\<lparr>limit = limit_of (limitValue html), category_param = ''all'', refreshParam = []\<rparr>,
      \<lparr>limit = limit_of (limitValue html), category_param = ''sports'',
        refreshParam = ''&refresh=true''\<rparr>]"
  using page_load_disables_refresh [of html] pending_after_tab_click [of html] by blast

text \<open>
  With two requests pending, the first one to settle enables the refresh button again
  while the other is still pending.
\<close>

lemma refresh_enabled_while_pending:
  "\<not> refreshDisabled (run [ClickTab ''sports'', Settle 0 out] (page_load html)) \<and>
   length (pending (run [ClickTab ''sports'', Settle 0 out] (page_load html))) = 1"
proof -
  define p where "p = step (ClickTab ''sports'') (page_load html)"
  have len: "length (pending p) = 2"
    by (simp add: p_def pending_after_tab_click)
  have "run [ClickTab ''sports'', Settle 0 out] (page_load html) = step (Settle 0 out) p"
    by (simp add: run_def p_def)
  also have "\<dots> = runAnalysis_settle out (p\<lparr>pending := take 0 (pending p) @ drop (Suc 0) (pending p)\<rparr>)"
    using len by (simp add: step_def)
  finally show ?thesis
    using len by (simp add: runAnalysis_settle_fields)
qed

end
